theory Spec2Isabelle
  imports Main
begin

section \<open>Python values, errors and string primitives\<close>

text \<open>
  The module \<open>phenoai/logger.py\<close> is a thin facade over Python's standard \<open>logging\<close>
  package. The facade's own functions are embedded below one by one; the parts of
  \<open>logging\<close> they call (\<open>Logger.isEnabledFor\<close>, \<open>Logger.callHandlers\<close>,
  \<open>Handler.handle\<close>, \<open>Filterer.filter\<close>, \<open>logging.disable\<close>, \<open>addHandler\<close>,
  \<open>removeHandler\<close>) are embedded after CPython's \<open>logging/__init__.py\<close>.
\<close>

text \<open>The argument of \<open>set_indent\<close> is dynamically typed. \<open>isinstance(lvl, int)\<close> holds
  for \<open>int\<close> and for \<open>bool\<close> (a subclass of \<open>int\<close>); \<open>PyOther\<close> stands for every object
  that is neither an \<open>int\<close>, a \<open>str\<close> nor \<open>None\<close>.\<close>

datatype pyval = PyNone | PyBool bool | PyInt int | PyStr string | PyOther

datatype error = Exception string | OSError string | OverflowError string

fun isinstance_int :: "pyval \<Rightarrow> bool" where
  "isinstance_int (PyInt n) = True"
| "isinstance_int (PyBool b) = True"
| "isinstance_int v = False"

fun isinstance_str :: "pyval \<Rightarrow> bool" where
  "isinstance_str (PyStr t) = True"
| "isinstance_str v = False"

text \<open>The integer an \<open>int\<close> instance denotes in arithmetic (\<open>True\<close> is 1, \<open>False\<close> is 0).\<close>

fun int_value :: "pyval \<Rightarrow> int" where
  "int_value (PyInt n) = n"
| "int_value (PyBool b) = (if b then 1 else 0)"
| "int_value v = 0"

text \<open>Python's \<open>s * n\<close> on a string: \<open>n\<close> copies of \<open>s\<close>, the empty string when \<open>n \<le> 0\<close>.
  This is the value for a count that passes CPython's index checks; \<open>str_repeat\<close> further
  down has the checks and the \<open>OverflowError\<close> they raise.\<close>

definition str_mul :: "string \<Rightarrow> int \<Rightarrow> string" where
  "str_mul s n = (if n \<le> 0 then [] else concat (replicate (nat n) s))"

text \<open>The alignments of the format mini-language that the module uses: \<open><\<close> and \<open>^\<close>.
  A value at least as wide as the field is left as it is; \<open>^\<close> puts the smaller half of
  the padding on the left.\<close>

datatype align = AlignLeft | AlignCenter

definition fmt_pad :: "align \<Rightarrow> nat \<Rightarrow> string \<Rightarrow> string" where
  "fmt_pad a w v =
     (if w \<le> length v then v
      else (let total = w - length v in
            case a of
              AlignLeft \<Rightarrow> v @ replicate total (CHR '' '')
            | AlignCenter \<Rightarrow>
                replicate (total div 2) (CHR '' '') @ v
                  @ replicate (total - total div 2) (CHR '' '')))"

text \<open>The escape character \<open>\033\<close>.\<close>

definition ESC :: string where
  "ESC = [CHR 0x1B]"

section \<open>Severities and log records\<close>

datatype severity = DEBUG | INFO | WARNING | ERROR | CRITICAL

definition NOTSET :: int where
  "NOTSET = 0"

fun levelno_of :: "severity \<Rightarrow> int" where
  "levelno_of DEBUG = 10"
| "levelno_of INFO = 20"
| "levelno_of WARNING = 30"
| "levelno_of ERROR = 40"
| "levelno_of CRITICAL = 50"

fun levelname_of :: "severity \<Rightarrow> string" where
  "levelname_of DEBUG = ''DEBUG''"
| "levelname_of INFO = ''INFO''"
| "levelname_of WARNING = ''WARNING''"
| "levelname_of ERROR = ''ERROR''"
| "levelname_of CRITICAL = ''CRITICAL''"

text \<open>A \<open>LogRecord\<close>: the attributes the module reads or writes. \<open>created\<close> is the
  record's time stamp as \<open>Formatter.formatTime\<close> prints it. \<open>levellabel\<close> and
  \<open>filteredmessage\<close> are attributes that exist only once \<open>ColourFilter\<close> has set them.\<close>

record log_record =
  levelno :: int
  levelname :: string
  msg :: string
  created :: string
  levellabel :: "string option"
  filteredmessage :: "string option"

section \<open>Handlers, filters and formatters\<close>

datatype filter_obj = IndentFilter | ColourFilter

datatype field = F_asctime | F_levelname | F_message | F_levellabel | F_filteredmessage

datatype fmt_item = Lit string | Field field "(align \<times> nat) option"

text \<open>\<open>"{asctime:<23} | {levellabel} | {filteredmessage}"\<close>\<close>

definition stream_fmt :: "fmt_item list" where
  "stream_fmt = [Field F_asctime (Some (AlignLeft, 23)), Lit '' | '',
                 Field F_levellabel None, Lit '' | '', Field F_filteredmessage None]"

text \<open>\<open>"{asctime:<23} | {levelname:^8} | {message}"\<close>\<close>

definition file_fmt :: "fmt_item list" where
  "file_fmt = [Field F_asctime (Some (AlignLeft, 23)), Lit '' | '',
               Field F_levelname (Some (AlignCenter, 8)), Lit '' | '', Field F_message None]"

datatype handler_kind = StreamHandler | FileHandler string

record handler =
  kind :: handler_kind
  level :: int
  filters :: "filter_obj list"
  formatter :: "fmt_item list option"

section \<open>The state: module globals, the logging package, the outside world\<close>

text \<open>
  Handler objects live in a store (\<open>heap\<close>), since \<open>__streamchannel__\<close> and the logger's
  handler list refer to the same object. \<open>clock\<close> is the time stamp a record created now
  gets; \<open>openable\<close> says which paths \<open>FileHandler\<close> can open for appending; \<open>stderr\<close>
  and \<open>files\<close> hold the lines written so far. The root logger has no handler of its
  own, and its level is \<open>root_level\<close>.
\<close>

record state =
  streamchannel :: "nat option"
  filechannel :: "nat option"
  colouredstream :: bool
  indentlevel :: int
  heap :: "nat \<rightharpoonup> handler"
  next_addr :: nat
  logger_level :: int
  logger_handlers :: "nat list"
  manager_disable :: int
  root_level :: int
  clock :: string
  openable :: "string \<Rightarrow> bool"
  stderr :: "string list"
  files :: "string \<Rightarrow> string list"

definition streamchannel_defaultlvl :: int where
  "streamchannel_defaultlvl = levelno_of INFO"

definition filechannel_defaultlvl :: int where
  "filechannel_defaultlvl = levelno_of INFO"

definition indentunit :: string where
  "indentunit = ''  ''"

section \<open>The two filters\<close>

definition ColourFilter_filter :: "state \<Rightarrow> log_record \<Rightarrow> log_record" where
  "ColourFilter_filter s r =
     (if colouredstream s then
        (if levelno r = levelno_of DEBUG then
           r\<lparr>levellabel := Some ('' '' @ ESC @ ''[94mDEBUG'' @ ESC @ ''[0m  ''),
             filteredmessage := Some (msg r)\<rparr>
         else if levelno r = levelno_of INFO then
           r\<lparr>levellabel := Some ''  INFO  '',
             filteredmessage := Some (msg r)\<rparr>
         else if levelno r = levelno_of WARNING then
           r\<lparr>levellabel := Some (ESC @ ''[93mWARNING'' @ ESC @ ''[0m ''),
             filteredmessage := Some (msg r)\<rparr>
         else if levelno r = levelno_of ERROR then
           r\<lparr>levellabel := Some ('' '' @ ESC @ ''[91mERROR'' @ ESC @ ''[0m  ''),
             filteredmessage := Some (msg r)\<rparr>
         else if levelno r = levelno_of CRITICAL then
           r\<lparr>levellabel := Some (ESC @ ''[1m'' @ ESC @ ''[91mCRITICAL'' @ ESC @ ''[0m''
                                    @ ESC @ ''[0m''),
             filteredmessage := Some (ESC @ ''[91m'' @ msg r @ ESC @ ''[0m'')\<rparr>
         else r)
      else
        r\<lparr>levellabel := Some (fmt_pad AlignCenter 8 (levelname r)),
          filteredmessage := Some (msg r)\<rparr>)"

definition IndentFilter_filter :: "state \<Rightarrow> log_record \<Rightarrow> log_record" where
  "IndentFilter_filter s r = r\<lparr>msg := str_mul indentunit (indentlevel s) @ msg r\<rparr>"

fun run_filter :: "filter_obj \<Rightarrow> state \<Rightarrow> log_record \<Rightarrow> log_record" where
  "run_filter IndentFilter s r = IndentFilter_filter s r"
| "run_filter ColourFilter s r = ColourFilter_filter s r"

text \<open>\<open>Filterer.filter\<close>: the filters run in the order they were added, each on the
  record as the one before left it. Both filters of the module return the record, which
  is truthy, so no record is ever vetoed.\<close>

fun Filterer_filter :: "filter_obj list \<Rightarrow> state \<Rightarrow> log_record \<Rightarrow> log_record" where
  "Filterer_filter [] s r = r"
| "Filterer_filter (f # fs) s r = Filterer_filter fs s (run_filter f s r)"

section \<open>Formatting and emitting\<close>

fun field_value :: "field \<Rightarrow> log_record \<Rightarrow> string option" where
  "field_value F_asctime r = Some (created r)"
| "field_value F_levelname r = Some (levelname r)"
| "field_value F_message r = Some (msg r)"
| "field_value F_levellabel r = levellabel r"
| "field_value F_filteredmessage r = filteredmessage r"

fun apply_spec :: "(align \<times> nat) option \<Rightarrow> string \<Rightarrow> string" where
  "apply_spec None v = v"
| "apply_spec (Some (a, w)) v = fmt_pad a w v"

text \<open>\<open>str.format\<close> over the record's attributes; a missing attribute is a
  \<open>KeyError\<close>, here \<open>None\<close>.\<close>

fun Formatter_format :: "fmt_item list \<Rightarrow> log_record \<Rightarrow> string option" where
  "Formatter_format [] r = Some []"
| "Formatter_format (Lit t # rest) r =
     (case Formatter_format rest r of None \<Rightarrow> None | Some out \<Rightarrow> Some (t @ out))"
| "Formatter_format (Field f spec # rest) r =
     (case field_value f r of
        None \<Rightarrow> None
      | Some v \<Rightarrow>
          (case Formatter_format rest r of
             None \<Rightarrow> None
           | Some out \<Rightarrow> Some (apply_spec spec v @ out)))"

text \<open>\<open>Handler.format\<close>: a handler without a formatter prints the bare message.\<close>

definition Handler_format :: "handler \<Rightarrow> log_record \<Rightarrow> string option" where
  "Handler_format h r =
     (case formatter h of None \<Rightarrow> Some (msg r) | Some f \<Rightarrow> Formatter_format f r)"

text \<open>\<open>Handler.handleError\<close>: \<open>emit\<close> catches a formatting exception and prints a
  report on standard error (its first line is kept here); the caller sees no exception.\<close>

definition handleError :: "state \<Rightarrow> state" where
  "handleError s = s\<lparr>stderr := stderr s @ [''--- Logging error ---'']\<rparr>"

definition Handler_emit :: "handler \<Rightarrow> log_record \<Rightarrow> state \<Rightarrow> state" where
  "Handler_emit h r s =
     (case Handler_format h r of
        None \<Rightarrow> handleError s
      | Some line \<Rightarrow>
          (case kind h of
             StreamHandler \<Rightarrow> s\<lparr>stderr := stderr s @ [line]\<rparr>
           | FileHandler p \<Rightarrow> s\<lparr>files := (files s)(p := files s p @ [line])\<rparr>))"

text \<open>\<open>Handler.handle\<close>: filter, then emit. The filters mutate the record object, so the
  record is returned as the handler leaves it.\<close>

definition Handler_handle :: "handler \<Rightarrow> log_record \<Rightarrow> state \<Rightarrow> log_record \<times> state" where
  "Handler_handle h r s =
     (let r' = Filterer_filter (filters h) s r in (r', Handler_emit h r' s))"

section \<open>The logger\<close>

definition getEffectiveLevel :: "state \<Rightarrow> int" where
  "getEffectiveLevel s = (if logger_level s \<noteq> 0 then logger_level s else root_level s)"

text \<open>\<open>Logger.isEnabledFor\<close>: \<open>if self.manager.disable >= level: return False\<close>, then
  the comparison with the effective level.\<close>

definition isEnabledFor :: "int \<Rightarrow> state \<Rightarrow> bool" where
  "isEnabledFor lvl s =
     (if manager_disable s \<ge> lvl then False else lvl \<ge> getEffectiveLevel s)"

text \<open>The loop of \<open>Logger.callHandlers\<close> over \<open>self.handlers\<close>.\<close>

fun callHandlers_loop :: "nat list \<Rightarrow> log_record \<Rightarrow> state \<Rightarrow> log_record \<times> state" where
  "callHandlers_loop [] r s = (r, s)"
| "callHandlers_loop (a # as) r s =
     (case heap s a of
        None \<Rightarrow> callHandlers_loop as r s
      | Some h \<Rightarrow>
          (if levelno r \<ge> level h then
             (case Handler_handle h r s of (r', s') \<Rightarrow> callHandlers_loop as r' s')
           else callHandlers_loop as r s))"

text \<open>\<open>Logger.callHandlers\<close>: when no handler at all was found, the record goes to
  \<open>logging.lastResort\<close>, a handler on standard error with level WARNING, no filter and
  no formatter.\<close>

definition callHandlers :: "log_record \<Rightarrow> state \<Rightarrow> state" where
  "callHandlers r s =
     (let s' = snd (callHandlers_loop (logger_handlers s) r s) in
      if length (logger_handlers s) = 0 then
        (if levelno r \<ge> levelno_of WARNING then s'\<lparr>stderr := stderr s' @ [msg r]\<rparr> else s')
      else s')"

definition makeRecord :: "severity \<Rightarrow> string \<Rightarrow> state \<Rightarrow> log_record" where
  "makeRecord sev m s =
     \<lparr>levelno = levelno_of sev, levelname = levelname_of sev, msg = m, created = clock s,
      levellabel = None, filteredmessage = None\<rparr>"

text \<open>\<open>Logger.debug\<close>, \<open>info\<close>, \<open>warning\<close>, \<open>error\<close>, \<open>critical\<close>.\<close>

definition Logger_log :: "severity \<Rightarrow> string \<Rightarrow> state \<Rightarrow> state" where
  "Logger_log sev m s =
     (if isEnabledFor (levelno_of sev) s then callHandlers (makeRecord sev m s) s else s)"

definition Logger_addHandler :: "nat \<Rightarrow> state \<Rightarrow> state" where
  "Logger_addHandler a s =
     (if a \<in> set (logger_handlers s) then s
      else s\<lparr>logger_handlers := logger_handlers s @ [a]\<rparr>)"

definition Logger_removeHandler :: "nat \<Rightarrow> state \<Rightarrow> state" where
  "Logger_removeHandler a s =
     (if a \<in> set (logger_handlers s) then s\<lparr>logger_handlers := remove1 a (logger_handlers s)\<rparr>
      else s)"

text \<open>A method call on the handler object at address \<open>a\<close>.\<close>

definition on_handler :: "nat \<Rightarrow> (handler \<Rightarrow> handler) \<Rightarrow> state \<Rightarrow> state" where
  "on_handler a f s =
     (case heap s a of None \<Rightarrow> s | Some h \<Rightarrow> s\<lparr>heap := (heap s)(a \<mapsto> f h)\<rparr>)"

definition Handler_setLevel :: "nat \<Rightarrow> int \<Rightarrow> state \<Rightarrow> state" where
  "Handler_setLevel a lvl s = on_handler a (\<lambda>h. h\<lparr>level := lvl\<rparr>) s"

text \<open>\<open>addFilter\<close> appends; each call of the module passes a fresh filter object, so
  the membership test of \<open>addFilter\<close> never finds it.\<close>

definition Handler_addFilter :: "nat \<Rightarrow> filter_obj \<Rightarrow> state \<Rightarrow> state" where
  "Handler_addFilter a f s = on_handler a (\<lambda>h. h\<lparr>filters := filters h @ [f]\<rparr>) s"

definition Handler_setFormatter :: "nat \<Rightarrow> fmt_item list \<Rightarrow> state \<Rightarrow> state" where
  "Handler_setFormatter a f s = on_handler a (\<lambda>h. h\<lparr>formatter := Some f\<rparr>) s"

text \<open>A new handler object: level \<open>NOTSET\<close>, no filter, no formatter.\<close>

definition new_handler :: "handler_kind \<Rightarrow> state \<Rightarrow> nat \<times> state" where
  "new_handler k s =
     (next_addr s,
      s\<lparr>heap := (heap s)(next_addr s \<mapsto>
                   \<lparr>kind = k, level = NOTSET, filters = [], formatter = None\<rparr>),
        next_addr := Suc (next_addr s)\<rparr>)"

section \<open>The facade\<close>

text \<open>In \<open>to_stream\<close> and \<open>to_file\<close> the handler that \<open>setLevel\<close> is called on is
  the one the global refers to after the \<open>if add\<close> block. The global is never \<open>None\<close>
  there, so the \<open>None\<close> branch of the \<open>case\<close> below is never taken.\<close>

definition to_stream :: "int option \<Rightarrow> bool \<Rightarrow> state \<Rightarrow> state" where
  "to_stream lvl colour s =
     (let add = (streamchannel s = None);
          s1 = s\<lparr>logger_level := levelno_of DEBUG\<rparr>;
          s2 = (if add then
                  (case new_handler StreamHandler s1 of (a, t) \<Rightarrow>
                     Handler_addFilter a ColourFilter
                       (Handler_addFilter a IndentFilter (t\<lparr>streamchannel := Some a\<rparr>)))
                else s1)
      in case streamchannel s2 of
           None \<Rightarrow> s2
         | Some a \<Rightarrow>
             (let s3 = (case lvl of
                          None \<Rightarrow> Handler_setLevel a streamchannel_defaultlvl s2
                        | Some l \<Rightarrow> Handler_setLevel a l s2);
                  s4 = (if add then Logger_addHandler a (Handler_setFormatter a stream_fmt s3)
                        else s3)
              in s4\<lparr>colouredstream := colour\<rparr>))"

text \<open>\<open>logging.FileHandler(logpath)\<close> opens the file at once and raises \<open>OSError\<close>
  when it cannot; nothing has been assigned by then.\<close>

definition to_file :: "string \<Rightarrow> int option \<Rightarrow> state \<Rightarrow> (error + unit) \<times> state" where
  "to_file logpath lvl s =
     (let add = (filechannel s = None) in
      if add \<and> \<not> openable s logpath then (Inl (OSError logpath), s)
      else
        (let s2 = (if add then
                     (case new_handler (FileHandler logpath) s of (a, t) \<Rightarrow>
                        Handler_addFilter a IndentFilter (t\<lparr>filechannel := Some a\<rparr>))
                   else s)
         in case filechannel s2 of
              None \<Rightarrow> (Inr (), s2)
            | Some a \<Rightarrow>
                (let s3 = (case lvl of
                             None \<Rightarrow> Handler_setLevel a filechannel_defaultlvl s2
                           | Some l \<Rightarrow> Handler_setLevel a l s2);
                     s4 = (if add then Logger_addHandler a (Handler_setFormatter a file_fmt s3)
                           else s3)
                 in (Inr (), s4))))"

definition remove_file_channel :: "state \<Rightarrow> state" where
  "remove_file_channel s =
     (case filechannel s of
        None \<Rightarrow> s
      | Some a \<Rightarrow> (Logger_removeHandler a s)\<lparr>filechannel := None\<rparr>)"

definition remove_stream_channel :: "state \<Rightarrow> state" where
  "remove_stream_channel s =
     (case streamchannel s of
        None \<Rightarrow> s
      | Some a \<Rightarrow> (Logger_removeHandler a s)\<lparr>streamchannel := None\<rparr>)"

text \<open>\<open>logging.disable(lvl)\<close> stores \<open>lvl\<close> in \<open>manager.disable\<close>.\<close>

definition mute :: "int \<Rightarrow> state \<Rightarrow> state" where
  "mute lvl s = s\<lparr>manager_disable := lvl\<rparr>"

text \<open>\<open>mute()\<close> with the default argument \<open>logging.CRITICAL\<close>.\<close>

definition mute_default :: "state \<Rightarrow> state" where
  "mute_default s = mute (levelno_of CRITICAL) s"

definition unmute :: "state \<Rightarrow> state" where
  "unmute s = s\<lparr>manager_disable := NOTSET\<rparr>"

definition set_indent :: "pyval \<Rightarrow> state \<Rightarrow> (error + unit) \<times> state" where
  "set_indent lvl s =
     (if isinstance_int lvl then (Inr (), s\<lparr>indentlevel := int_value lvl\<rparr>)
      else if isinstance_str lvl then
        (if lvl = PyStr ''+'' then (Inr (), s\<lparr>indentlevel := indentlevel s + 1\<rparr>)
         else if lvl = PyStr ''-'' then (Inr (), s\<lparr>indentlevel := indentlevel s - 1\<rparr>)
         else (Inl (Exception ''Indent level not recognized''), s))
      else if lvl \<noteq> PyNone then (Inl (Exception ''Indent level not recognized''), s)
      else (Inr (), s))"

definition colour_stream :: "bool \<Rightarrow> state \<Rightarrow> state" where
  "colour_stream colour s = s\<lparr>colouredstream := colour\<rparr>"

text \<open>The five emit functions share one body: \<open>set_indent(indent)\<close>, then the logger's
  method of the same severity.\<close>

definition emit :: "severity \<Rightarrow> string \<Rightarrow> pyval \<Rightarrow> state \<Rightarrow> (error + unit) \<times> state" where
  "emit sev message indent s =
     (case set_indent indent s of
        (Inl e, s') \<Rightarrow> (Inl e, s')
      | (Inr u, s') \<Rightarrow> (Inr (), Logger_log sev message s'))"

definition debug :: "string \<Rightarrow> pyval \<Rightarrow> state \<Rightarrow> (error + unit) \<times> state" where
  "debug message indent s = emit DEBUG message indent s"

definition info :: "string \<Rightarrow> pyval \<Rightarrow> state \<Rightarrow> (error + unit) \<times> state" where
  "info message indent s = emit INFO message indent s"

definition warning :: "string \<Rightarrow> pyval \<Rightarrow> state \<Rightarrow> (error + unit) \<times> state" where
  "warning message indent s = emit WARNING message indent s"

definition error :: "string \<Rightarrow> pyval \<Rightarrow> state \<Rightarrow> (error + unit) \<times> state" where
  "error message indent s = emit ERROR message indent s"

definition critical :: "string \<Rightarrow> pyval \<Rightarrow> state \<Rightarrow> (error + unit) \<times> state" where
  "critical exception indent s = emit CRITICAL exception indent s"

text \<open>The module's globals as lines 14 to 22 assign them, in a process where nothing
  has configured \<open>logging\<close> yet: the logger has level \<open>NOTSET\<close> and no handler, nothing
  is disabled, the root logger has its default level WARNING.\<close>

definition globals_at_import :: "string \<Rightarrow> (string \<Rightarrow> bool) \<Rightarrow> state" where
  "globals_at_import clk op =
     \<lparr>streamchannel = None, filechannel = None, colouredstream = True, indentlevel = 0,
      heap = Map.empty, next_addr = 0, logger_level = NOTSET, logger_handlers = [],
      manager_disable = 0, root_level = levelno_of WARNING, clock = clk, openable = op,
      stderr = [], files = (\<lambda>p. [])\<rparr>"

text \<open>The last two lines of the module: \<open>if __streamchannel__ is None: to_stream()\<close>.\<close>

definition module_init :: "string \<Rightarrow> (string \<Rightarrow> bool) \<Rightarrow> state" where
  "module_init clk op =
     (let s = globals_at_import clk op in
      if streamchannel s = None then to_stream None True s else s)"

section \<open>String repetition with CPython's index checks\<close>











section \<open>Sequences of calls\<close>

text \<open>What a caller of the module can do, one call at a time; \<open>World\<close> is the
  environment moving on (the clock, the file system's permissions).\<close>

datatype call =
    ToStream "int option" bool
  | ToFile string "int option"
  | RemoveFileChannel
  | RemoveStreamChannel
  | Mute int
  | Unmute
  | SetIndent pyval
  | ColourStream bool
  | Emit severity string pyval
  | World string "string \<Rightarrow> bool"

fun run_call :: "call \<Rightarrow> state \<Rightarrow> state" where
  "run_call (ToStream lvl colour) s = to_stream lvl colour s"
| "run_call (ToFile logpath lvl) s = snd (to_file logpath lvl s)"
| "run_call RemoveFileChannel s = remove_file_channel s"
| "run_call RemoveStreamChannel s = remove_stream_channel s"
| "run_call (Mute lvl) s = mute lvl s"
| "run_call Unmute s = unmute s"
| "run_call (SetIndent lvl) s = snd (set_indent lvl s)"
| "run_call (ColourStream colour) s = colour_stream colour s"
| "run_call (Emit sev message indent) s = snd (emit sev message indent s)"
| "run_call (World clk op) s = s\<lparr>clock := clk, openable := op\<rparr>"

text \<open>The states a process can be in: the state right after the import, and every
  state a call leads to from there.\<close>

inductive reachable :: "state \<Rightarrow> bool" where
  at_import: "reachable (module_init clk op)"
| after_call: "reachable s \<Longrightarrow> reachable (run_call c s)"

section \<open>Observations used in the statements\<close>

text \<open>The level \<open>setLevel\<close> is called with: \<open>lvl\<close>, or the default when \<open>lvl\<close> is
  \<open>None\<close>.\<close>

definition level_or :: "int \<Rightarrow> int option \<Rightarrow> int" where
  "level_or d lvl = (case lvl of None \<Rightarrow> d | Some l \<Rightarrow> l)"

text \<open>A text as a terminal renders it: every escape sequence, from the escape
  character to the next \<open>m\<close>, is dropped.\<close>

fun strip_colour_codes_from :: "bool \<Rightarrow> string \<Rightarrow> string" where
  "strip_colour_codes_from inside [] = []"
| "strip_colour_codes_from inside (c # cs) =
     (if inside then
        (if c = CHR ''m'' then strip_colour_codes_from False cs
         else strip_colour_codes_from True cs)
      else if c = CHR 0x1B then strip_colour_codes_from True cs
      else c # strip_colour_codes_from False cs)"

definition strip_colour_codes :: "string \<Rightarrow> string" where
  "strip_colour_codes t = strip_colour_codes_from False t"


text \<open>The handlers of each kind that are attached to the logger.\<close>

definition is_stream_handler :: "state \<Rightarrow> nat \<Rightarrow> bool" where
  "is_stream_handler s a =
     (case heap s a of None \<Rightarrow> False | Some h \<Rightarrow> kind h = StreamHandler)"

definition is_file_handler :: "state \<Rightarrow> nat \<Rightarrow> bool" where
  "is_file_handler s a =
     (case heap s a of
        None \<Rightarrow> False
      | Some h \<Rightarrow> (case kind h of StreamHandler \<Rightarrow> False | FileHandler p \<Rightarrow> True))"

definition attached_stream_handlers :: "state \<Rightarrow> nat list" where
  "attached_stream_handlers s = filter (is_stream_handler s) (logger_handlers s)"

definition attached_file_handlers :: "state \<Rightarrow> nat list" where
  "attached_file_handlers s = filter (is_file_handler s) (logger_handlers s)"

text \<open>A handler as \<open>to_stream\<close>, respectively \<open>to_file\<close>, sets it up, at whatever
  level.\<close>

definition stream_configured :: "handler \<Rightarrow> bool" where
  "stream_configured h \<longleftrightarrow>
     kind h = StreamHandler \<and> filters h = [IndentFilter, ColourFilter]
     \<and> formatter h = Some stream_fmt"

definition file_configured :: "handler \<Rightarrow> bool" where
  "file_configured h \<longleftrightarrow>
     (\<exists>p. kind h = FileHandler p) \<and> filters h = [IndentFilter]
     \<and> formatter h = Some file_fmt"

text \<open>The registry invariant: the logger's handlers are exactly the live channels,
  each once, and each live channel is an allocated handler set up as its kind demands.\<close>

definition registry_ok :: "state \<Rightarrow> bool" where
  "registry_ok s \<longleftrightarrow>
     distinct (logger_handlers s)
     \<and> set (logger_handlers s) = set_option (streamchannel s) \<union> set_option (filechannel s)
     \<and> (\<forall>a. streamchannel s = Some a \<longrightarrow>
            a < next_addr s \<and> (\<exists>h. heap s a = Some h \<and> stream_configured h))
     \<and> (\<forall>b. filechannel s = Some b \<longrightarrow>
            b < next_addr s \<and> (\<exists>h. heap s b = Some h \<and> file_configured h))"

section \<open>What each registry call does to the state\<close>

lemma to_stream_absent:
  assumes "streamchannel s = None"
  shows "to_stream lvl colour s =
    s\<lparr>streamchannel := Some (next_addr s), colouredstream := colour,
      heap := (heap s)(next_addr s \<mapsto>
        \<lparr>kind = StreamHandler, level = level_or streamchannel_defaultlvl lvl,
         filters = [IndentFilter, ColourFilter], formatter = Some stream_fmt\<rparr>),
      next_addr := Suc (next_addr s), logger_level := levelno_of DEBUG,
      logger_handlers := (if next_addr s \<in> set (logger_handlers s) then logger_handlers s
                          else logger_handlers s @ [next_addr s])\<rparr>"
  using assms
  by (cases lvl)
     (simp_all add: to_stream_def Let_def new_handler_def Handler_addFilter_def
      Handler_setLevel_def Handler_setFormatter_def on_handler_def Logger_addHandler_def
      level_or_def)

lemma to_stream_present:
  assumes "streamchannel s = Some a" and "heap s a = Some h"
  shows "to_stream lvl colour s =
    s\<lparr>logger_level := levelno_of DEBUG, colouredstream := colour,
      heap := (heap s)(a \<mapsto> h\<lparr>level := level_or streamchannel_defaultlvl lvl\<rparr>)\<rparr>"
  using assms
  by (cases lvl)
     (simp_all add: to_stream_def Let_def Handler_setLevel_def on_handler_def level_or_def)

lemma to_file_absent:
  assumes "filechannel s = None" and "openable s logpath"
  shows "to_file logpath lvl s =
    (Inr (), s\<lparr>filechannel := Some (next_addr s),
      heap := (heap s)(next_addr s \<mapsto>
        \<lparr>kind = FileHandler logpath, level = level_or filechannel_defaultlvl lvl,
         filters = [IndentFilter], formatter = Some file_fmt\<rparr>),
      next_addr := Suc (next_addr s),
      logger_handlers := (if next_addr s \<in> set (logger_handlers s) then logger_handlers s
                          else logger_handlers s @ [next_addr s])\<rparr>)"
  using assms
  by (cases lvl)
     (simp_all add: to_file_def Let_def new_handler_def Handler_addFilter_def
      Handler_setLevel_def Handler_setFormatter_def on_handler_def Logger_addHandler_def
      level_or_def)

lemma to_file_unopenable:
  assumes "filechannel s = None" and "\<not> openable s logpath"
  shows "to_file logpath lvl s = (Inl (OSError logpath), s)"
  using assms by (simp add: to_file_def)

lemma to_file_present:
  assumes "filechannel s = Some b" and "heap s b = Some h"
  shows "to_file logpath lvl s =
    (Inr (), s\<lparr>heap := (heap s)(b \<mapsto> h\<lparr>level := level_or filechannel_defaultlvl lvl\<rparr>)\<rparr>)"
  using assms
  by (cases lvl)
     (simp_all add: to_file_def Let_def Handler_setLevel_def on_handler_def level_or_def)

section \<open>Emitting touches only the outputs\<close>

lemma Handler_emit_frame:
  "Handler_emit h r s
     = s\<lparr>stderr := stderr (Handler_emit h r s), files := files (Handler_emit h r s)\<rparr>"
  by (simp add: Handler_emit_def handleError_def split: option.splits handler_kind.splits)

lemma callHandlers_loop_frame:
  "snd (callHandlers_loop as r s)
     = s\<lparr>stderr := stderr (snd (callHandlers_loop as r s)),
         files := files (snd (callHandlers_loop as r s))\<rparr>"
proof (induction as arbitrary: r s)
  case Nil
  show ?case by simp
next
  case (Cons a as)
  show ?case
  proof (cases "heap s a")
    case None
    with Cons show ?thesis by simp
  next
    case (Some h)
    show ?thesis
    proof (cases "level h \<le> levelno r")
      case False
      with Some Cons show ?thesis by simp
    next
      case True
      obtain r' s' where hh: "Handler_handle h r s = (r', s')" by fastforce
      then have s': "s' = Handler_emit h r' s"
        by (auto simp: Handler_handle_def Let_def)
      have "snd (callHandlers_loop as r' s')
              = s'\<lparr>stderr := stderr (snd (callHandlers_loop as r' s')),
                   files := files (snd (callHandlers_loop as r' s'))\<rparr>"
        by (rule Cons.IH)
      also have "\<dots> = s\<lparr>stderr := stderr (snd (callHandlers_loop as r' s')),
                   files := files (snd (callHandlers_loop as r' s'))\<rparr>"
        unfolding s' by (subst Handler_emit_frame) simp
      finally show ?thesis using Some True hh by simp
    qed
  qed
qed

lemma Logger_log_frame:
  "Logger_log sev m s
     = s\<lparr>stderr := stderr (Logger_log sev m s), files := files (Logger_log sev m s)\<rparr>"
proof -
  let ?t = "snd (callHandlers_loop (logger_handlers s) (makeRecord sev m s) s)"
  have t: "?t = s\<lparr>stderr := stderr ?t, files := files ?t\<rparr>"
    by (rule callHandlers_loop_frame)
  show ?thesis
    unfolding Logger_log_def callHandlers_def Let_def
    by (subst (1 2 3 4) t) simp
qed

section \<open>The registry invariant holds in every reachable state\<close>

lemma registry_ok_frame:
  "registry_ok s \<Longrightarrow> registry_ok (s\<lparr>stderr := e, files := f\<rparr>)"
  by (simp add: registry_ok_def)

lemma registry_ok_Logger_log: "registry_ok s \<Longrightarrow> registry_ok (Logger_log sev m s)"
  by (subst Logger_log_frame) (rule registry_ok_frame)

lemma registry_ok_module_init: "registry_ok (module_init clk op)"
  by (simp add: registry_ok_def module_init_def globals_at_import_def to_stream_def
      new_handler_def Handler_addFilter_def Handler_setLevel_def Handler_setFormatter_def
      on_handler_def Logger_addHandler_def stream_configured_def)

lemma registry_ok_to_stream:
  assumes "registry_ok s"
  shows "registry_ok (to_stream lvl colour s)"
proof (cases "streamchannel s")
  case None
  with assms show ?thesis
    by (auto simp: to_stream_absent registry_ok_def stream_configured_def
        file_configured_def)
next
  case (Some a)
  with assms obtain h where h: "heap s a = Some h" "stream_configured h"
    by (auto simp: registry_ok_def)
  with assms Some show ?thesis
    by (auto simp: to_stream_present registry_ok_def stream_configured_def
        file_configured_def)
qed

lemma registry_ok_to_file:
  assumes "registry_ok s"
  shows "registry_ok (snd (to_file logpath lvl s))"
proof (cases "filechannel s")
  case None
  show ?thesis
  proof (cases "openable s logpath")
    case True
    with assms None show ?thesis
      by (auto simp: to_file_absent registry_ok_def stream_configured_def
          file_configured_def)
  next
    case False
    with assms None show ?thesis by (simp add: to_file_unopenable)
  qed
next
  case (Some b)
  with assms obtain h where h: "heap s b = Some h" "file_configured h"
    by (auto simp: registry_ok_def)
  with assms Some show ?thesis
    by (auto simp: to_file_present registry_ok_def stream_configured_def
        file_configured_def)
qed

lemma registry_ok_remove_file_channel:
  assumes "registry_ok s"
  shows "registry_ok (remove_file_channel s)"
  using assms
  by (auto simp: registry_ok_def remove_file_channel_def Logger_removeHandler_def
      stream_configured_def file_configured_def split: option.splits)

lemma registry_ok_remove_stream_channel:
  assumes "registry_ok s"
  shows "registry_ok (remove_stream_channel s)"
  using assms
  by (auto simp: registry_ok_def remove_stream_channel_def Logger_removeHandler_def
      stream_configured_def file_configured_def split: option.splits)

lemma registry_ok_set_indent: "registry_ok s \<Longrightarrow> registry_ok (snd (set_indent lvl s))"
  by (simp add: registry_ok_def set_indent_def)

lemma registry_ok_emit:
  assumes ok: "registry_ok s"
  shows "registry_ok (snd (emit sev m lvl s))"
proof (cases "set_indent lvl s")
  case (Pair res s')
  then have "registry_ok s'" using registry_ok_set_indent [OF ok, of lvl] by simp
  with Pair show ?thesis
    by (cases res) (simp_all add: emit_def registry_ok_Logger_log)
qed

lemma registry_ok_run_call:
  assumes ok: "registry_ok s"
  shows "registry_ok (run_call c s)"
proof (cases c)
  case (ToStream lvl colour)
  with ok show ?thesis by (simp add: registry_ok_to_stream)
next
  case (ToFile p lvl)
  with ok show ?thesis by (simp add: registry_ok_to_file)
next
  case RemoveFileChannel
  with ok show ?thesis by (simp add: registry_ok_remove_file_channel)
next
  case RemoveStreamChannel
  with ok show ?thesis by (simp add: registry_ok_remove_stream_channel)
next
  case (Mute lvl)
  with ok show ?thesis by (simp add: registry_ok_def mute_def)
next
  case Unmute
  with ok show ?thesis by (simp add: registry_ok_def unmute_def)
next
  case (SetIndent lvl)
  with ok show ?thesis by (simp add: registry_ok_set_indent)
next
  case (ColourStream colour)
  with ok show ?thesis by (simp add: registry_ok_def colour_stream_def)
next
  case (Emit sev m lvl)
  with ok show ?thesis by (simp add: registry_ok_emit)
next
  case (World clk op)
  with ok show ?thesis by (simp add: registry_ok_def)
qed

lemma reachable_registry_ok: "reachable s \<Longrightarrow> registry_ok s"
  by (induction rule: reachable.induct)
     (simp_all add: registry_ok_module_init registry_ok_run_call)

section \<open>Consequences of the registry invariant\<close>

lemma filter_single:
  assumes "distinct xs" and "a \<in> set xs" and "P a" and "\<forall>x\<in>set xs. P x \<longrightarrow> x = a"
  shows "filter P xs = [a]"
proof -
  have d: "distinct (filter P xs)" using assms(1) by simp
  have st: "set (filter P xs) = {a}"
  proof
    show "set (filter P xs) \<subseteq> {a}" using assms(4) by (simp add: subset_iff)
    show "{a} \<subseteq> set (filter P xs)" using assms(2,3) by simp
  qed
  from d have "card (set (filter P xs)) = length (filter P xs)"
    by (rule distinct_card)
  with st have "length (filter P xs) = Suc 0" by simp
  then obtain y where y: "filter P xs = [y]" by (auto simp: length_Suc_conv)
  with st show ?thesis by simp
qed

lemma registry_ok_members:
  assumes "registry_ok s" and "x \<in> set (logger_handlers s)"
  shows "streamchannel s = Some x \<or> filechannel s = Some x"
proof -
  from assms(1) have "set (logger_handlers s)
      = set_option (streamchannel s) \<union> set_option (filechannel s)"
    unfolding registry_ok_def by (rule conjunct1 [OF conjunct2])
  with assms(2) have "x \<in> set_option (streamchannel s) \<union> set_option (filechannel s)"
    by simp
  then show ?thesis by (cases "streamchannel s"; cases "filechannel s") auto
qed

lemma registry_ok_stream:
  assumes "registry_ok s" and "streamchannel s = Some a"
  shows "a \<in> set (logger_handlers s) \<and> is_stream_handler s a \<and> \<not> is_file_handler s a"
proof -
  from assms(1) have m: "set (logger_handlers s)
      = set_option (streamchannel s) \<union> set_option (filechannel s)"
    unfolding registry_ok_def by (rule conjunct1 [OF conjunct2])
  from assms obtain h where "heap s a = Some h" "stream_configured h"
    unfolding registry_ok_def by blast
  then have "is_stream_handler s a \<and> \<not> is_file_handler s a"
    by (simp add: is_stream_handler_def is_file_handler_def stream_configured_def)
  moreover have "a \<in> set (logger_handlers s)" unfolding m using assms(2) by simp
  ultimately show ?thesis by simp
qed

lemma registry_ok_file:
  assumes "registry_ok s" and "filechannel s = Some b"
  shows "b \<in> set (logger_handlers s) \<and> is_file_handler s b \<and> \<not> is_stream_handler s b"
proof -
  from assms(1) have m: "set (logger_handlers s)
      = set_option (streamchannel s) \<union> set_option (filechannel s)"
    unfolding registry_ok_def by (rule conjunct1 [OF conjunct2])
  from assms obtain h p where "heap s b = Some h" "kind h = FileHandler p"
    unfolding registry_ok_def file_configured_def by blast
  then have "is_file_handler s b \<and> \<not> is_stream_handler s b"
    by (simp add: is_stream_handler_def is_file_handler_def)
  moreover have "b \<in> set (logger_handlers s)" unfolding m using assms(2) by simp
  ultimately show ?thesis by simp
qed

lemma registry_ok_distinct: "registry_ok s \<Longrightarrow> distinct (logger_handlers s)"
  unfolding registry_ok_def by (rule conjunct1)

lemma attached_stream_handlers_eq:
  assumes ok: "registry_ok s"
  shows "attached_stream_handlers s = (case streamchannel s of None \<Rightarrow> [] | Some a \<Rightarrow> [a])"
proof (cases "streamchannel s")
  case None
  have "\<not> is_stream_handler s x" if "x \<in> set (logger_handlers s)" for x
  proof -
    from registry_ok_members [OF ok that] None have "filechannel s = Some x" by simp
    with registry_ok_file [OF ok] show ?thesis by blast
  qed
  then have "filter (is_stream_handler s) (logger_handlers s) = []"
    by (simp add: filter_empty_conv)
  with None show ?thesis by (simp add: attached_stream_handlers_def)
next
  case (Some a)
  have one: "x = a" if "x \<in> set (logger_handlers s)" "is_stream_handler s x" for x
  proof -
    from registry_ok_members [OF ok that(1)] Some
    have "x = a \<or> filechannel s = Some x" by auto
    with registry_ok_file [OF ok] that(2) show ?thesis by blast
  qed
  have "filter (is_stream_handler s) (logger_handlers s) = [a]"
  proof (rule filter_single)
    show "distinct (logger_handlers s)" using ok by (rule registry_ok_distinct)
    show "a \<in> set (logger_handlers s)" using registry_ok_stream [OF ok Some] by simp
    show "is_stream_handler s a" using registry_ok_stream [OF ok Some] by simp
    show "\<forall>x\<in>set (logger_handlers s). is_stream_handler s x \<longrightarrow> x = a"
      using one by blast
  qed
  with Some show ?thesis by (simp add: attached_stream_handlers_def)
qed

lemma attached_file_handlers_eq:
  assumes ok: "registry_ok s"
  shows "attached_file_handlers s = (case filechannel s of None \<Rightarrow> [] | Some b \<Rightarrow> [b])"
proof (cases "filechannel s")
  case None
  have "\<not> is_file_handler s x" if "x \<in> set (logger_handlers s)" for x
  proof -
    from registry_ok_members [OF ok that] None have "streamchannel s = Some x" by simp
    with registry_ok_stream [OF ok] show ?thesis by blast
  qed
  then have "filter (is_file_handler s) (logger_handlers s) = []"
    by (simp add: filter_empty_conv)
  with None show ?thesis by (simp add: attached_file_handlers_def)
next
  case (Some b)
  have one: "x = b" if "x \<in> set (logger_handlers s)" "is_file_handler s x" for x
  proof -
    from registry_ok_members [OF ok that(1)] Some
    have "x = b \<or> streamchannel s = Some x" by auto
    with registry_ok_stream [OF ok] that(2) show ?thesis by blast
  qed
  have "filter (is_file_handler s) (logger_handlers s) = [b]"
  proof (rule filter_single)
    show "distinct (logger_handlers s)" using ok by (rule registry_ok_distinct)
    show "b \<in> set (logger_handlers s)" using registry_ok_file [OF ok Some] by simp
    show "is_file_handler s b" using registry_ok_file [OF ok Some] by simp
    show "\<forall>x\<in>set (logger_handlers s). is_file_handler s x \<longrightarrow> x = b"
      using one by blast
  qed
  with Some show ?thesis by (simp add: attached_file_handlers_def)
qed

lemma on_handler_streamchannel: "streamchannel (on_handler a f s) = streamchannel s"
  by (simp add: on_handler_def split: option.splits)

lemma to_stream_live: "\<exists>a. streamchannel (to_stream lvl colour s) = Some a"
proof (cases "streamchannel s")
  case None
  then show ?thesis by (simp add: to_stream_absent)
next
  case (Some a)
  then have "streamchannel (to_stream lvl colour s) = Some a"
    by (cases lvl)
       (simp_all add: to_stream_def Let_def Handler_setLevel_def on_handler_streamchannel)
  then show ?thesis by blast
qed

section \<open>What the two kinds of handler write\<close>

lemma center_levelname:
  "fmt_pad AlignCenter 8 ''DEBUG'' = '' DEBUG  ''"
  "fmt_pad AlignCenter 8 ''INFO'' = ''  INFO  ''"
  "fmt_pad AlignCenter 8 ''WARNING'' = ''WARNING ''"
  "fmt_pad AlignCenter 8 ''ERROR'' = '' ERROR  ''"
  "fmt_pad AlignCenter 8 ''CRITICAL'' = ''CRITICAL''"
  by code_simp+

lemma module_init_eq:
  "module_init clk op =
     \<lparr>streamchannel = Some 0, filechannel = None, colouredstream = True, indentlevel = 0,
      heap = [0 \<mapsto> \<lparr>kind = StreamHandler, level = 20,
                     filters = [IndentFilter, ColourFilter], formatter = Some stream_fmt\<rparr>],
      next_addr = Suc 0, logger_level = 10, logger_handlers = [0],
      manager_disable = 0, root_level = 30, clock = clk, openable = op,
      stderr = [], files = (\<lambda>p. [])\<rparr>"
  by (simp add: module_init_def globals_at_import_def to_stream_absent level_or_def
      streamchannel_defaultlvl_def NOTSET_def)


lemma Formatter_format_stream_fmt:
  "Formatter_format stream_fmt r =
     (case levellabel r of
        None \<Rightarrow> None
      | Some l \<Rightarrow>
          (case filteredmessage r of
             None \<Rightarrow> None
           | Some f \<Rightarrow> Some (fmt_pad AlignLeft 23 (created r) @ '' | '' @ l @ '' | '' @ f)))"
  by (simp add: stream_fmt_def split: option.splits)





section \<open>One record through both channels\<close>









section \<open>The index checks and the two models of the pipeline\<close>


















section \<open>The first handler that takes a record\<close>





section \<open>The indent transform and the indent state\<close>




text \<open>
  C3. \<open>set_indent\<close> sets the counter to an integer argument (every instance of \<open>int\<close>,
  so a \<open>bool\<close> too, which counts as 1 or 0), adds one on \<open>"+"\<close>, subtracts
  one on \<open>"-"\<close> without a floor (\<open>"-"\<close> after \<open>set_indent(0)\<close> gives \<open>-1\<close>), does nothing on
  \<open>None\<close>, and raises on anything else, leaving the state as it was; each of the five emit
  functions then raises the same error before anything is logged.
\<close>

theorem set_indent_cases:
  "set_indent (PyInt n) s = (Inr (), s\<lparr>indentlevel := n\<rparr>)
   \<and> set_indent (PyStr ''+'') s = (Inr (), s\<lparr>indentlevel := indentlevel s + 1\<rparr>)
   \<and> set_indent (PyStr ''-'') s = (Inr (), s\<lparr>indentlevel := indentlevel s - 1\<rparr>)
   \<and> indentlevel (snd (set_indent (PyStr ''-'') (snd (set_indent (PyInt 0) s)))) = - 1
   \<and> indentlevel (snd (set_indent (PyStr ''+'') (snd (set_indent (PyInt 5) s)))) = 6
   \<and> set_indent PyNone s = (Inr (), s)
   \<and> (isinstance_int i \<longrightarrow> set_indent i s = (Inr (), s\<lparr>indentlevel := int_value i\<rparr>))
   \<and> set_indent (PyBool b) s = (Inr (), s\<lparr>indentlevel := (if b then 1 else 0)\<rparr>)
   \<and> (\<not> isinstance_int lvl \<and> lvl \<noteq> PyStr ''+'' \<and> lvl \<noteq> PyStr ''-'' \<and> lvl \<noteq> PyNone
        \<longrightarrow> set_indent lvl s = (Inl (Exception ''Indent level not recognized''), s)
          \<and> debug m lvl s = (Inl (Exception ''Indent level not recognized''), s)
          \<and> info m lvl s = (Inl (Exception ''Indent level not recognized''), s)
          \<and> warning m lvl s = (Inl (Exception ''Indent level not recognized''), s)
          \<and> error m lvl s = (Inl (Exception ''Indent level not recognized''), s)
          \<and> critical m lvl s = (Inl (Exception ''Indent level not recognized''), s))"
  by (cases lvl; cases i) (simp_all add: set_indent_def emit_def debug_def info_def
      warning_def error_def critical_def)

theorem set_indent_cases_witness:
  "isinstance_int (PyBool True)
   \<and> set_indent (PyBool True) (module_init [] (\<lambda>p. True))
       = (Inr (), (module_init [] (\<lambda>p. True))\<lparr>indentlevel := 1\<rparr>)
   \<and> \<not> isinstance_int (PyStr ''++'') \<and> PyStr ''++'' \<noteq> PyStr ''+''
   \<and> PyStr ''++'' \<noteq> PyStr ''-'' \<and> PyStr ''++'' \<noteq> PyNone
   \<and> set_indent (PyStr ''++'') (module_init [] (\<lambda>p. True))
       = (Inl (Exception ''Indent level not recognized''), module_init [] (\<lambda>p. True))
   \<and> critical ''boom'' (PyStr ''++'') (module_init [] (\<lambda>p. True))
       = (Inl (Exception ''Indent level not recognized''), module_init [] (\<lambda>p. True))"
  using set_indent_cases [where s = "module_init [] (\<lambda>p. True)" and i = "PyBool True"
      and lvl = "PyStr ''++''" and m = "''boom''"]
  by simp

section \<open>Severity labels\<close>

text \<open>
  C8. For each of the five severities the label has the same rendered width. With colour
  on, the label with its escape sequences dropped is the severity name centred in eight
  characters, and the INFO label has no escape sequence. With colour off, the label is
  the severity name centred in eight characters, and the message is passed on unchanged.
\<close>

theorem label_width:
  "(\<exists>l. levellabel (ColourFilter_filter (s\<lparr>colouredstream := True\<rparr>)
            (r\<lparr>levelno := levelno_of sev, levelname := levelname_of sev\<rparr>)) = Some l
        \<and> strip_colour_codes l = fmt_pad AlignCenter 8 (levelname_of sev)
        \<and> length (strip_colour_codes l) = 8)
   \<and> levellabel (ColourFilter_filter (s\<lparr>colouredstream := True\<rparr>)
            (r\<lparr>levelno := levelno_of INFO, levelname := levelname_of INFO\<rparr>))
        = Some ''  INFO  ''
   \<and> strip_colour_codes ''  INFO  '' = ''  INFO  ''
   \<and> levellabel (ColourFilter_filter (s\<lparr>colouredstream := False\<rparr>)
            (r\<lparr>levelno := levelno_of sev, levelname := levelname_of sev\<rparr>))
        = Some (fmt_pad AlignCenter 8 (levelname_of sev))
   \<and> length (fmt_pad AlignCenter 8 (levelname_of sev)) = 8
   \<and> filteredmessage (ColourFilter_filter (s\<lparr>colouredstream := False\<rparr>)
            (r\<lparr>levelno := levelno_of sev, levelname := levelname_of sev\<rparr>)) = Some (msg r)
   \<and> msg (ColourFilter_filter (s\<lparr>colouredstream := False\<rparr>)
            (r\<lparr>levelno := levelno_of sev, levelname := levelname_of sev\<rparr>)) = msg r"
  by (cases sev)
     (simp_all add: ColourFilter_filter_def strip_colour_codes_def center_levelname ESC_def)

section \<open>The state after the import\<close>

text \<open>
  C10. Right after the import the stream channel is present: one stream handler is
  attached, at level INFO, with colour on. The file channel is absent.
\<close>

theorem module_init_channels:
  "\<exists>a h. streamchannel (module_init clk op) = Some a
       \<and> heap (module_init clk op) a = Some h
       \<and> kind h = StreamHandler
       \<and> level h = levelno_of INFO
       \<and> logger_handlers (module_init clk op) = [a]
       \<and> colouredstream (module_init clk op)
       \<and> filechannel (module_init clk op) = None"
  by (simp add: module_init_def globals_at_import_def to_stream_def new_handler_def
      Handler_addFilter_def Handler_setLevel_def Handler_setFormatter_def on_handler_def
      Logger_addHandler_def streamchannel_defaultlvl_def)

section \<open>The channel registry\<close>

text \<open>
  C5. Calling \<open>to_stream\<close> with one level and then with another leaves exactly one stream
  handler attached to the logger, the one \<open>__streamchannel__\<close> refers to, at the second
  level (INFO when the second level is \<open>None\<close>); the second call adds no handler. In every
  reachable state at most one stream handler is attached.
\<close>

theorem to_stream_twice:
  assumes "reachable s"
  shows "\<exists>a h. streamchannel (to_stream L2 c2 (to_stream L1 c1 s)) = Some a
           \<and> attached_stream_handlers (to_stream L2 c2 (to_stream L1 c1 s)) = [a]
           \<and> heap (to_stream L2 c2 (to_stream L1 c1 s)) a = Some h
           \<and> level h = level_or (levelno_of INFO) L2
           \<and> streamchannel (to_stream L1 c1 s) = Some a
           \<and> logger_handlers (to_stream L2 c2 (to_stream L1 c1 s))
               = logger_handlers (to_stream L1 c1 s)
           \<and> length (attached_stream_handlers s) \<le> 1"
proof -
  let ?s1 = "to_stream L1 c1 s"
  let ?s2 = "to_stream L2 c2 ?s1"
  have ok: "registry_ok s" using assms by (rule reachable_registry_ok)
  then have ok1: "registry_ok ?s1" by (rule registry_ok_to_stream)
  then have ok2: "registry_ok ?s2" by (rule registry_ok_to_stream)
  obtain a where a: "streamchannel ?s1 = Some a" using to_stream_live by blast
  with ok1 obtain h where h: "heap ?s1 a = Some h" by (auto simp: registry_ok_def)
  have eq: "?s2 = ?s1\<lparr>logger_level := levelno_of DEBUG, colouredstream := c2,
      heap := (heap ?s1)(a \<mapsto> h\<lparr>level := level_or streamchannel_defaultlvl L2\<rparr>)\<rparr>"
    using a h by (rule to_stream_present)
  have a2: "streamchannel ?s2 = Some a" by (subst eq) (simp add: a)
  have "attached_stream_handlers ?s2 = [a]"
    using attached_stream_handlers_eq [OF ok2] a2 by simp
  moreover have "heap ?s2 a = Some (h\<lparr>level := level_or streamchannel_defaultlvl L2\<rparr>)"
    by (subst eq) simp
  moreover have "logger_handlers ?s2 = logger_handlers ?s1" by (subst eq) simp
  moreover have "length (attached_stream_handlers s) \<le> 1"
    using attached_stream_handlers_eq [OF ok] by (simp split: option.splits)
  ultimately show ?thesis using a a2 by (simp add: streamchannel_defaultlvl_def)
qed

theorem to_stream_twice_witness:
  "reachable (module_init [] (\<lambda>p. True))
   \<and> attached_stream_handlers
        (to_stream (Some 40) False (to_stream (Some 10) True (module_init [] (\<lambda>p. True)))) = [0]
   \<and> map_option level (heap
        (to_stream (Some 40) False (to_stream (Some 10) True (module_init [] (\<lambda>p. True)))) 0)
        = Some 40"
proof -
  have r: "reachable (module_init [] (\<lambda>p. True))" by (rule reachable.at_import)
  have z: "streamchannel (to_stream (Some 10) True (module_init [] (\<lambda>p. True))) = Some 0"
    by (simp add: module_init_def globals_at_import_def to_stream_def Let_def new_handler_def
        Handler_addFilter_def Handler_setLevel_def Handler_setFormatter_def on_handler_def
        Logger_addHandler_def)
  from to_stream_twice [OF r, of "Some 40" False "Some 10" True] z r
  show ?thesis by (auto simp: level_or_def)
qed

text \<open>
  C6. While a file channel is live, \<open>to_file\<close> with any path raises nothing and changes
  only the level of the existing handler: its path, filters and formatter, the logger's
  handler list and \<open>__filechannel__\<close> stay as they were, and one file handler is attached.
\<close>

theorem to_file_again:
  assumes "reachable s" and "filechannel s = Some b"
  shows "\<exists>h. heap s b = Some h
           \<and> to_file logpath lvl s
               = (Inr (), s\<lparr>heap := (heap s)(b \<mapsto>
                                h\<lparr>level := level_or (levelno_of INFO) lvl\<rparr>)\<rparr>)
           \<and> kind (h\<lparr>level := level_or (levelno_of INFO) lvl\<rparr>) = kind h
           \<and> filters (h\<lparr>level := level_or (levelno_of INFO) lvl\<rparr>) = filters h
           \<and> formatter (h\<lparr>level := level_or (levelno_of INFO) lvl\<rparr>) = formatter h
           \<and> logger_handlers (snd (to_file logpath lvl s)) = logger_handlers s
           \<and> filechannel (snd (to_file logpath lvl s)) = Some b
           \<and> attached_file_handlers (snd (to_file logpath lvl s)) = [b]"
proof -
  have ok: "registry_ok s" using assms(1) by (rule reachable_registry_ok)
  with assms(2) obtain h where h: "heap s b = Some h" by (auto simp: registry_ok_def)
  have eq: "to_file logpath lvl s
      = (Inr (), s\<lparr>heap := (heap s)(b \<mapsto> h\<lparr>level := level_or filechannel_defaultlvl lvl\<rparr>)\<rparr>)"
    using assms(2) h by (rule to_file_present)
  have ok': "registry_ok (snd (to_file logpath lvl s))" using ok by (rule registry_ok_to_file)
  have fc: "filechannel (snd (to_file logpath lvl s)) = Some b"
    by (simp add: eq assms(2))
  have "attached_file_handlers (snd (to_file logpath lvl s)) = [b]"
    using attached_file_handlers_eq [OF ok'] fc by simp
  with h eq fc show ?thesis by (simp add: filechannel_defaultlvl_def)
qed

theorem to_file_again_witness:
  "reachable (run_call (ToFile ''run.log'' None) (module_init [] (\<lambda>p. True)))
   \<and> filechannel (run_call (ToFile ''run.log'' None) (module_init [] (\<lambda>p. True))) = Some 1
   \<and> map_option kind (heap (snd (to_file ''other.log'' (Some 40)
        (run_call (ToFile ''run.log'' None) (module_init [] (\<lambda>p. True))))) 1)
       = Some (FileHandler ''run.log'')
   \<and> map_option level (heap (snd (to_file ''other.log'' (Some 40)
        (run_call (ToFile ''run.log'' None) (module_init [] (\<lambda>p. True))))) 1) = Some 40"
proof -
  let ?s = "run_call (ToFile ''run.log'' None) (module_init [] (\<lambda>p. True))"
  have r: "reachable ?s" by (rule reachable.after_call) (rule reachable.at_import)
  have f: "filechannel ?s = Some 1"
    by (simp add: module_init_def globals_at_import_def to_stream_def to_file_def Let_def
        new_handler_def Handler_addFilter_def Handler_setLevel_def Handler_setFormatter_def
        on_handler_def Logger_addHandler_def)
  have k: "map_option kind (heap ?s 1) = Some (FileHandler ''run.log'')"
    by (simp add: module_init_def globals_at_import_def to_stream_def to_file_def Let_def
        new_handler_def Handler_addFilter_def Handler_setLevel_def Handler_setFormatter_def
        on_handler_def Logger_addHandler_def)
  from to_file_again [OF r f, of "''other.log''" "Some 40"] r f k
  show ?thesis by (auto simp: level_or_def)
qed

text \<open>
  C9. \<open>remove_file_channel\<close> and \<open>remove_stream_channel\<close> take the live handler off the
  logger and set the global to \<open>None\<close>; when the channel is absent they change nothing,
  also in the state where no channel was ever enabled. Neither has a failing branch.
\<close>

theorem remove_channels:
  assumes "reachable s"
  shows "(case filechannel s of
            None \<Rightarrow> remove_file_channel s = s
          | Some b \<Rightarrow>
              b \<in> set (logger_handlers s)
              \<and> remove_file_channel s
                  = s\<lparr>logger_handlers := remove1 b (logger_handlers s), filechannel := None\<rparr>
              \<and> b \<notin> set (logger_handlers (remove_file_channel s))
              \<and> attached_file_handlers (remove_file_channel s) = [])
       \<and> (case streamchannel s of
            None \<Rightarrow> remove_stream_channel s = s
          | Some a \<Rightarrow>
              a \<in> set (logger_handlers s)
              \<and> remove_stream_channel s
                  = s\<lparr>logger_handlers := remove1 a (logger_handlers s), streamchannel := None\<rparr>
              \<and> a \<notin> set (logger_handlers (remove_stream_channel s))
              \<and> attached_stream_handlers (remove_stream_channel s) = [])
       \<and> remove_file_channel (globals_at_import clk op) = globals_at_import clk op
       \<and> remove_stream_channel (globals_at_import clk op) = globals_at_import clk op"
proof -
  have ok: "registry_ok s" using assms by (rule reachable_registry_ok)
  have f: "case filechannel s of
            None \<Rightarrow> remove_file_channel s = s
          | Some b \<Rightarrow>
              b \<in> set (logger_handlers s)
              \<and> remove_file_channel s
                  = s\<lparr>logger_handlers := remove1 b (logger_handlers s), filechannel := None\<rparr>
              \<and> b \<notin> set (logger_handlers (remove_file_channel s))
              \<and> attached_file_handlers (remove_file_channel s) = []"
  proof (cases "filechannel s")
    case None
    then show ?thesis by (simp add: remove_file_channel_def)
  next
    case (Some b)
    have ok': "registry_ok (remove_file_channel s)"
      using ok by (rule registry_ok_remove_file_channel)
    have "filechannel (remove_file_channel s) = None"
      using Some by (simp add: remove_file_channel_def)
    then have "attached_file_handlers (remove_file_channel s) = []"
      using attached_file_handlers_eq [OF ok'] by simp
    with ok Some show ?thesis
      by (auto simp: registry_ok_def remove_file_channel_def Logger_removeHandler_def)
  qed
  have g: "case streamchannel s of
            None \<Rightarrow> remove_stream_channel s = s
          | Some a \<Rightarrow>
              a \<in> set (logger_handlers s)
              \<and> remove_stream_channel s
                  = s\<lparr>logger_handlers := remove1 a (logger_handlers s), streamchannel := None\<rparr>
              \<and> a \<notin> set (logger_handlers (remove_stream_channel s))
              \<and> attached_stream_handlers (remove_stream_channel s) = []"
  proof (cases "streamchannel s")
    case None
    then show ?thesis by (simp add: remove_stream_channel_def)
  next
    case (Some a)
    have ok': "registry_ok (remove_stream_channel s)"
      using ok by (rule registry_ok_remove_stream_channel)
    have "streamchannel (remove_stream_channel s) = None"
      using Some by (simp add: remove_stream_channel_def)
    then have "attached_stream_handlers (remove_stream_channel s) = []"
      using attached_stream_handlers_eq [OF ok'] by simp
    with ok Some show ?thesis
      by (auto simp: registry_ok_def remove_stream_channel_def Logger_removeHandler_def)
  qed
  have "remove_file_channel (globals_at_import clk op) = globals_at_import clk op"
    by (simp add: remove_file_channel_def globals_at_import_def)
  moreover have "remove_stream_channel (globals_at_import clk op) = globals_at_import clk op"
    by (simp add: remove_stream_channel_def globals_at_import_def)
  ultimately show ?thesis using f g by simp
qed

theorem remove_channels_witness:
  "reachable (module_init [] (\<lambda>p. True))
   \<and> remove_file_channel (module_init [] (\<lambda>p. True)) = module_init [] (\<lambda>p. True)
   \<and> streamchannel (module_init [] (\<lambda>p. True)) = Some 0
   \<and> logger_handlers (remove_stream_channel (module_init [] (\<lambda>p. True))) = []
   \<and> streamchannel (remove_stream_channel (module_init [] (\<lambda>p. True))) = None"
proof -
  have r: "reachable (module_init [] (\<lambda>p. True))" by (rule reachable.at_import)
  have z: "streamchannel (module_init [] (\<lambda>p. True)) = Some 0"
      "filechannel (module_init [] (\<lambda>p. True)) = None"
      "logger_handlers (module_init [] (\<lambda>p. True)) = [0]"
    by (simp_all add: module_init_def globals_at_import_def to_stream_def Let_def
        new_handler_def Handler_addFilter_def Handler_setLevel_def Handler_setFormatter_def
        on_handler_def Logger_addHandler_def)
  from remove_channels [OF r, of "[]" "\<lambda>p. True"] z r
  show ?thesis by simp
qed

section \<open>Muting\<close>

text \<open>
  C1 (the boundary). \<open>mute(lvl)\<close> is \<open>logging.disable(lvl)\<close>, and \<open>isEnabledFor\<close> drops a record
  when \<open>manager.disable >= level\<close>: a record at exactly the muted level is dropped as well.
  After \<open>mute(WARNING)\<close> a \<open>warning\<close> call leaves the state as it was, with nothing on
  standard error, although the same call without the mute writes a line and an \<open>error\<close>
  call under the mute still does; after \<open>mute()\<close> with its default, a \<open>critical\<close> call
  writes nothing either.
\<close>

theorem mute_silences_its_own_level:
  "isEnabledFor lvl (mute lvl s) = False
   \<and> snd (warning ''x'' PyNone (mute (levelno_of WARNING) (module_init clk op)))
       = mute (levelno_of WARNING) (module_init clk op)
   \<and> stderr (snd (warning ''x'' PyNone (mute (levelno_of WARNING) (module_init clk op)))) = []
   \<and> stderr (snd (warning ''x'' PyNone (module_init clk op))) \<noteq> []
   \<and> stderr (snd (error ''x'' PyNone (mute (levelno_of WARNING) (module_init clk op)))) \<noteq> []
   \<and> snd (critical ''x'' PyNone (mute_default (module_init clk op)))
       = mute_default (module_init clk op)"
  by (simp add: isEnabledFor_def mute_def mute_default_def warning_def error_def critical_def
      emit_def set_indent_def Logger_log_def getEffectiveLevel_def module_init_eq
      callHandlers_def Handler_handle_def Handler_emit_def Handler_format_def makeRecord_def
      ColourFilter_filter_def IndentFilter_filter_def Formatter_format_stream_fmt Let_def)

section \<open>The file channel and colour\<close>



section \<open>Indentation across channels\<close>



end
